theory Spec2Isabelle
  imports Main
begin

section \<open>Response emission of the SCIM handler utilities\<close>

text \<open>
  The development follows \<^verbatim>\<open>pkg/handlerutil/response.go\<close>: the two functions
  \<^verbatim>\<open>WriteResourceToResponse\<close> and \<^verbatim>\<open>WriteError\<close>. Go strings are byte sequences,
  so they are HOL strings (lists of 8-bit characters); Go's \<^verbatim>\<open>int\<close> is only stored and
  compared here, never computed with, so it is \<^typ>\<open>int\<close>.
\<close>

subsection \<open>Errors\<close>

text \<open>
  \<^verbatim>\<open>spec.Error\<close> carries the HTTP status and the SCIM error type. \<^verbatim>\<open>WriteError\<close> reads
  exactly these two fields.
\<close>

record spec_Error =
  Status :: int
  Type :: string

text \<open>
  A non-nil value of Go's interface type \<^verbatim>\<open>error\<close> is a dynamic type with a value. The
  only dynamic type the source distinguishes is \<^verbatim>\<open>*spec.Error\<close> (the pointer is
  represented by the struct it points to); every other type is \<open>Other\<close>. Besides its
  dynamic type, an error is known to the source through two methods: \<^verbatim>\<open>Error()\<close>, the
  rendered message, and \<^verbatim>\<open>Unwrap()\<close>, the direct cause, which is \<open>None\<close> both when the
  type has no such method and when the method returns nil. The interface type \<^verbatim>\<open>error\<close>
  itself is \<^typ>\<open>'a option\<close> over these values, \<open>None\<close> being nil.
\<close>

datatype dyn_type = Spec_Error spec_Error | Other

datatype go_error = GoError (dyn: dyn_type) (Error: string) (Unwrap: "go_error option")

text \<open>\<^verbatim>\<open>errors.Unwrap\<close>: nil has no \<^verbatim>\<open>Unwrap\<close> method, so its cause is nil.\<close>

fun errors_Unwrap :: "go_error option \<Rightarrow> go_error option" where
  "errors_Unwrap None = None"
| "errors_Unwrap (Some err) = Unwrap err"

text \<open>
  The type assertion \<^verbatim>\<open>cause.(*spec.Error)\<close> in its two-result form: the asserted value
  when the dynamic type is \<^verbatim>\<open>*spec.Error\<close>, and \<open>None\<close> (\<^verbatim>\<open>ok == false\<close>) for nil
  and for every other dynamic type.
\<close>

fun as_spec_Error :: "go_error option \<Rightarrow> spec_Error option" where
  "as_spec_Error None = None"
| "as_spec_Error (Some cause) = (case dyn cause of Spec_Error scimError \<Rightarrow> Some scimError | Other \<Rightarrow> None)"

text \<open>
  Modelled from the spec: \<^verbatim>\<open>spec.ErrInternal\<close> is declared in package \<^verbatim>\<open>spec\<close>, whose
  source is not at hand. The specification describes it as the well-known fallback
  classification with status 500 and a fixed internal-error type; the type string itself
  is not given and stays a parameter.
\<close>

definition ErrInternal :: "string \<Rightarrow> spec_Error" where
  "ErrInternal internalType = \<lparr>Status = 500, Type = internalType\<rparr>"

subsection \<open>The response channel\<close>

text \<open>
  \<^verbatim>\<open>http.ResponseWriter\<close> is an interface with the three methods \<^verbatim>\<open>Header\<close>,
  \<^verbatim>\<open>WriteHeader\<close> and \<^verbatim>\<open>Write\<close>. The channel is a recording one: \<open>header\<close> is the
  header map that \<^verbatim>\<open>Header()\<close> returns (a name maps to its list of values), \<open>calls\<close>
  is the sequence of calls made on the channel so far, oldest first, and \<open>write_error\<close>
  is the error that the channel's \<^verbatim>\<open>Write\<close> returns for a given body (\<open>None\<close> is nil).
  Header names are the ones the source passes; \<^verbatim>\<open>http.Header\<close> looks a name up under
  the same canonical spelling under which it stores it.
\<close>

datatype call = SetHeader string string | WriteHeaderCall int | WriteCall string

record ResponseWriter =
  header :: "string \<rightharpoonup> string list"
  calls :: "call list"
  write_error :: "string \<Rightarrow> go_error option"

text \<open>\<^verbatim>\<open>rw.Header().Set(key, value)\<close> replaces the values of \<open>key\<close> by the single \<open>value\<close>.\<close>

definition Header_Set :: "string \<Rightarrow> string \<Rightarrow> ResponseWriter \<Rightarrow> ResponseWriter" where
  "Header_Set key v rw =
     rw\<lparr>header := (header rw)(key \<mapsto> [v]), calls := calls rw @ [SetHeader key v]\<rparr>"

text \<open>\<^verbatim>\<open>rw.WriteHeader(statusCode)\<close>.\<close>

definition WriteHeader :: "int \<Rightarrow> ResponseWriter \<Rightarrow> ResponseWriter" where
  "WriteHeader statusCode rw = rw\<lparr>calls := calls rw @ [WriteHeaderCall statusCode]\<rparr>"

text \<open>\<^verbatim>\<open>rw.Write(raw)\<close>; the byte count it returns is discarded by both callers.\<close>

definition Write :: "string \<Rightarrow> ResponseWriter \<Rightarrow> ResponseWriter \<times> go_error option" where
  "Write raw rw = (rw\<lparr>calls := calls rw @ [WriteCall raw]\<rparr>, write_error rw raw)"

text \<open>What a recording channel shows: the status codes and the bodies written, in order.\<close>

fun status_codes :: "call list \<Rightarrow> int list" where
  "status_codes [] = []"
| "status_codes (WriteHeaderCall statusCode # cs) = statusCode # status_codes cs"
| "status_codes (_ # cs) = status_codes cs"

fun bodies :: "call list \<Rightarrow> string list" where
  "bodies [] = []"
| "bodies (WriteCall raw # cs) = raw # bodies cs"
| "bodies (_ # cs) = bodies cs"

text \<open>
  What the response carries. By the contract of \<^verbatim>\<open>http.ResponseWriter\<close>, the header
  map is sent with the status: \<^verbatim>\<open>WriteHeader\<close> sends it, a \<^verbatim>\<open>Write\<close> that comes first
  sends it with the status 200, and a change made to the map after that is not sent.
  Given the map as it stands before a sequence of calls, \<open>headers_sent\<close> is the map that
  goes out with the first \<^verbatim>\<open>WriteHeader\<close> or \<^verbatim>\<open>Write\<close> among them, and \<open>None\<close> when
  there is none.
\<close>

fun headers_sent :: "(string \<rightharpoonup> string list) \<Rightarrow> call list \<Rightarrow> (string \<rightharpoonup> string list) option" where
  "headers_sent h [] = None"
| "headers_sent h (SetHeader key v # cs) = headers_sent (h(key \<mapsto> [v])) cs"
| "headers_sent h (WriteHeaderCall statusCode # cs) = Some h"
| "headers_sent h (WriteCall raw # cs) = Some h"

subsection \<open>Writing a resource\<close>

text \<open>
  Modelled from the spec: \<^verbatim>\<open>prop.Resource\<close> is declared in package \<^verbatim>\<open>prop\<close>, whose
  source is not at hand. The specification describes a resource as an opaque structure
  with two accessors, \<^verbatim>\<open>MetaLocationOrEmpty\<close> and \<^verbatim>\<open>MetaVersionOrEmpty\<close>, each giving
  a string that is empty when the field is not there; \<open>content\<close> stands for everything
  else.
\<close>

record 'c Resource =
  MetaLocationOrEmpty :: string
  MetaVersionOrEmpty :: string
  content :: 'c

text \<open>
  \<^verbatim>\<open>scimjson.Serialize\<close> is the external serializer, a parameter here: it gives the
  serialized bytes and an error (\<open>None\<close> is nil). The options are passed through as they
  are.
\<close>

definition WriteResourceToResponse ::
  "('c Resource \<Rightarrow> 'o list \<Rightarrow> string \<times> go_error option) \<Rightarrow>
   ResponseWriter \<Rightarrow> 'c Resource \<Rightarrow> 'o list \<Rightarrow> ResponseWriter \<times> go_error option" where
  "WriteResourceToResponse Serialize rw resource options =
     (case Serialize resource options of
        (raw, Some jsonErr) \<Rightarrow> (rw, Some jsonErr)
      | (raw, None) \<Rightarrow>
          let rw1 = Header_Set ''Content-Type'' ''application/json+scim'' rw;
              location = MetaLocationOrEmpty resource;
              rw2 = (if length location > 0 then Header_Set ''Location'' location rw1 else rw1);
              version = MetaVersionOrEmpty resource;
              rw3 = (if length version > 0 then Header_Set ''ETag'' version rw2 else rw2)
          in Write raw rw3)"

subsection \<open>Writing an error\<close>

text \<open>The anonymous struct \<^verbatim>\<open>errMsg\<close> of \<^verbatim>\<open>WriteError\<close>, the wire error body.\<close>

record errMsg_struct =
  Schemas :: "string list"
  Status :: int
  ScimType :: string
  Detail :: string

text \<open>
  A call either returns or panics. \<^verbatim>\<open>WriteError\<close> panics on a nil error, at
  \<^verbatim>\<open>err.Error()\<close>, before it has touched the channel.
\<close>

datatype 'a outcome = Panic | Return 'a

text \<open>
  The struct as it stands when \<^verbatim>\<open>WriteError\<close> reaches \<^verbatim>\<open>rw.WriteHeader\<close>: the composite
  literal sets \<open>Schemas\<close> and \<open>Detail\<close> and leaves the zero values in the other two
  fields, then the branch on the type of the direct cause fills them in.
\<close>

definition errMsg :: "spec_Error \<Rightarrow> go_error \<Rightarrow> errMsg_struct" where
  "errMsg errInternal err =
     (let errMsg = \<lparr>Schemas = [''urn:ietf:params:scim:api:messages:2.0:Error''],
                    Status = 0, ScimType = [], Detail = Error err\<rparr>;
          cause = errors_Unwrap (Some err)
      in case as_spec_Error cause of
           Some scimError \<Rightarrow>
             errMsg\<lparr>Status := spec_Error.Status scimError, ScimType := Type scimError\<rparr>
         | None \<Rightarrow>
             errMsg\<lparr>Status := spec_Error.Status errInternal, ScimType := Type errInternal\<rparr>)"

text \<open>
  \<^verbatim>\<open>json.Marshal\<close> is the generic JSON encoder, the parameter \<open>marshal\<close> here: it
  gives the encoded bytes and an error. \<open>errInternal\<close> is the value of the package
  variable \<^verbatim>\<open>spec.ErrInternal\<close>.
\<close>

fun WriteError ::
  "(errMsg_struct \<Rightarrow> string \<times> go_error option) \<Rightarrow> spec_Error \<Rightarrow>
   ResponseWriter \<Rightarrow> go_error option \<Rightarrow> (ResponseWriter \<times> go_error option) outcome" where
  "WriteError marshal errInternal rw None = Panic"
| "WriteError marshal errInternal rw (Some err) =
     (let msg = errMsg errInternal err;
          rw1 = WriteHeader (Status msg) rw;
          rw2 = Header_Set ''Content-Type'' ''application/json+scim'' rw1
      in (case marshal msg of
            (raw, Some jsonErr) \<Rightarrow> Return (rw2, Some jsonErr)
          | (raw, None) \<Rightarrow> Return (Write raw rw2)))"

text \<open>
  The bodies that reach the channel for a given wire error body: the encoded bytes when the
  encoder succeeds, nothing when it fails.
\<close>

definition body_written :: "(errMsg_struct \<Rightarrow> string \<times> go_error option) \<Rightarrow> errMsg_struct \<Rightarrow> string list" where
  "body_written marshal msg =
     (case marshal msg of (raw, None) \<Rightarrow> [raw] | (raw, Some jsonErr) \<Rightarrow> [])"

subsection \<open>The generic JSON encoder\<close>

text \<open>
  \<^verbatim>\<open>WriteError\<close> encodes the wire error body with \<^verbatim>\<open>json.Marshal\<close>. The packages
  \<^verbatim>\<open>encoding/json\<close>, \<^verbatim>\<open>unicode/utf8\<close> and \<^verbatim>\<open>strconv\<close> belong to Go's standard library,
  not to the repository; this section follows their code for the one struct that
  \<^verbatim>\<open>WriteError\<close> passes: an object with the four tagged fields in the order of their
  declaration, a slice of strings as an array, an \<^verbatim>\<open>int\<close> in decimal, a string as a JSON
  string. The encoder coerces strings to valid UTF-8: every byte that does not start a
  valid encoding is written as the escape of U+FFFD.
\<close>

text \<open>
  \<^verbatim>\<open>utf8.RuneError\<close>, and the table \<^verbatim>\<open>first\<close> of \<^verbatim>\<open>unicode/utf8\<close> for the leading bytes
  of multi-byte encodings: the length of the encoding and the range accepted for its
  second byte. \<open>None\<close> stands for the entries of the bytes that cannot lead (\<^verbatim>\<open>xx\<close>).
\<close>

definition RuneError :: nat where
  "RuneError = 0xFFFD"

definition first :: "nat \<Rightarrow> (nat \<times> nat \<times> nat) option" where
  "first s0 =
     (if 0xC2 \<le> s0 \<and> s0 \<le> 0xDF then Some (2, 0x80, 0xBF)
      else if s0 = 0xE0 then Some (3, 0xA0, 0xBF)
      else if 0xE1 \<le> s0 \<and> s0 \<le> 0xEC then Some (3, 0x80, 0xBF)
      else if s0 = 0xED then Some (3, 0x80, 0x9F)
      else if 0xEE \<le> s0 \<and> s0 \<le> 0xEF then Some (3, 0x80, 0xBF)
      else if s0 = 0xF0 then Some (4, 0x90, 0xBF)
      else if 0xF1 \<le> s0 \<and> s0 \<le> 0xF3 then Some (4, 0x80, 0xBF)
      else if s0 = 0xF4 then Some (4, 0x80, 0x8F)
      else None)"

text \<open>
  \<^verbatim>\<open>utf8.DecodeRuneInString\<close>: the first rune of a string and the number of bytes it
  takes; \<open>(RuneError, 1)\<close> for a byte that starts no valid encoding. The masks and
  shifts of the source are written with \<open>mod\<close> and multiplication.
\<close>

fun DecodeRuneInString :: "string \<Rightarrow> nat \<times> nat" where
  "DecodeRuneInString [] = (RuneError, 0)"
| "DecodeRuneInString (c0 # s) =
     (let s0 = of_char c0 in
      if s0 < 0x80 then (s0, 1)
      else case first s0 of
        None \<Rightarrow> (RuneError, 1)
      | Some (sz, lo, hi) \<Rightarrow>
          if length (c0 # s) < sz then (RuneError, 1)
          else let s1 = of_char (s ! 0) in
            if s1 < lo \<or> hi < s1 then (RuneError, 1)
            else if sz \<le> 2 then (s0 mod 32 * 64 + s1 mod 64, 2)
            else let s2 = of_char (s ! 1) in
              if s2 < 0x80 \<or> 0xBF < s2 then (RuneError, 1)
              else if sz \<le> 3 then (s0 mod 16 * 4096 + s1 mod 64 * 64 + s2 mod 64, 3)
              else let s3 = of_char (s ! 2) in
                if s3 < 0x80 \<or> 0xBF < s3 then (RuneError, 1)
                else (s0 mod 8 * 262144 + s1 mod 64 * 4096 + s2 mod 64 * 64 + s3 mod 64, 4))"

text \<open>
  \<^verbatim>\<open>htmlSafeSet\<close> of \<^verbatim>\<open>encoding/json\<close>: the ASCII bytes that \<^verbatim>\<open>json.Marshal\<close> copies as
  they are. The others are the control characters, the quote, the backslash and, because
  \<^verbatim>\<open>json.Marshal\<close> escapes for HTML, \<^verbatim>\<open><\<close>, \<^verbatim>\<open>>\<close> and \<^verbatim>\<open>&\<close>.
\<close>

definition htmlSafe :: "nat \<Rightarrow> bool" where
  "htmlSafe b = (0x20 \<le> b \<and> b < 0x80 \<and> b \<noteq> 0x22 \<and> b \<noteq> 0x26 \<and> b \<noteq> 0x3C \<and> b \<noteq> 0x3E \<and> b \<noteq> 0x5C)"

definition hex :: string where
  "hex = ''0123456789abcdef''"

text \<open>
  The \<^verbatim>\<open>switch\<close> of \<^verbatim>\<open>appendString\<close> on an ASCII byte. (Older releases of Go write backspace
  and form feed as \<^verbatim>\<open>\u0008\<close> and \<^verbatim>\<open>\u000c\<close>; the two forms denote the same
  characters.)
\<close>

definition escape_ascii :: "char \<Rightarrow> string" where
  "escape_ascii c =
     (let b = of_char c :: nat in
      if htmlSafe b then [c]
      else if c = CHR 0x5C \<or> c = CHR 0x22 then [CHR 0x5C, c]
      else if c = CHR 0x08 then [CHR 0x5C, CHR ''b'']
      else if c = CHR 0x0C then [CHR 0x5C, CHR ''f'']
      else if c = CHR 0x0A then [CHR 0x5C, CHR ''n'']
      else if c = CHR 0x0D then [CHR 0x5C, CHR ''r'']
      else if c = CHR 0x09 then [CHR 0x5C, CHR ''t'']
      else [CHR 0x5C, CHR ''u'', CHR ''0'', CHR ''0'', hex ! (b div 16), hex ! (b mod 16)])"

text \<open>
  The loop of \<^verbatim>\<open>appendString\<close>, without the quotes around its output. After a rune of
  \<open>width\<close> bytes the source goes on at \<^verbatim>\<open>i + width\<close>, which is \<open>drop (width - 1)\<close> of
  the bytes after the first one. U+2028 and U+2029 are escaped, every other valid
  multi-byte rune is copied.
\<close>

fun appendString :: "string \<Rightarrow> string" where
  "appendString [] = []"
| "appendString (c # s) =
     (if (of_char c :: nat) < 0x80 then escape_ascii c @ appendString s
      else case DecodeRuneInString (c # s) of (r, width) \<Rightarrow>
        if r = RuneError \<and> width = 1 then
          [CHR 0x5C, CHR ''u'', CHR ''f'', CHR ''f'', CHR ''f'', CHR ''d''] @ appendString s
        else if r = 0x2028 \<or> r = 0x2029 then
          [CHR 0x5C, CHR ''u'', CHR ''2'', CHR ''0'', CHR ''2'', hex ! (r mod 16)]
          @ appendString (drop (width - 1) s)
        else take width (c # s) @ appendString (drop (width - 1) s))"

text \<open>\<^verbatim>\<open>utf8.ValidString\<close>: no byte of the string is decoded as an encoding error.\<close>

fun ValidString :: "string \<Rightarrow> bool" where
  "ValidString [] = True"
| "ValidString (c # s) =
     (case DecodeRuneInString (c # s) of (r, width) \<Rightarrow>
        \<not> (r = RuneError \<and> width = 1) \<and> ValidString (drop (width - 1) s))"

text \<open>\<^verbatim>\<open>strconv.FormatInt\<close> in base 10, as the encoder calls it for an \<^verbatim>\<open>int\<close>.\<close>

fun digits :: "nat \<Rightarrow> string" where
  "digits n = (if n < 10 then [char_of (0x30 + n)] else digits (n div 10) @ [char_of (0x30 + n mod 10)])"

definition FormatInt :: "int \<Rightarrow> string" where
  "FormatInt i = (if i < 0 then CHR ''-'' # digits (nat (- i)) else digits (nat i))"

text \<open>
  A string between its quotes, the elements of a non-nil slice of strings, and the whole
  wire error body. For this struct \<^verbatim>\<open>json.Marshal\<close> has no failing case: the error it
  returns is nil.
\<close>

definition json_string :: "string \<Rightarrow> string" where
  "json_string s = CHR 0x22 # appendString s @ [CHR 0x22]"

fun json_array :: "string list \<Rightarrow> string" where
  "json_array [] = []"
| "json_array [s] = json_string s"
| "json_array (s # ss) = json_string s @ '','' @ json_array ss"

definition json_Marshal :: "errMsg_struct \<Rightarrow> string \<times> go_error option" where
  "json_Marshal msg =
     (''{'' @ json_string ''schemas'' @ '':['' @ json_array (Schemas msg) @ '']''
      @ '','' @ json_string ''status'' @ '':'' @ FormatInt (Status msg)
      @ '','' @ json_string ''scimType'' @ '':'' @ json_string (ScimType msg)
      @ '','' @ json_string ''detail'' @ '':'' @ json_string (Detail msg) @ ''}'', None)"

subsection \<open>Reading the JSON back\<close>

text \<open>
  The source only writes. To state what a reader gets back, this is a parser of JSON
  texts (RFC 8259) whose numbers are integers: white space between tokens, objects,
  arrays, strings with every escape including surrogate pairs, integers and the three
  literals. An escape that denotes no character gives U+FFFD; the bytes of a string that
  are not escaped are taken as they are.
\<close>

datatype json = JNull | JBool bool | JNumber int | JString string | JArray "json list"
  | JObject "(string \<times> json) list"

fun skip_ws :: "string \<Rightarrow> string" where
  "skip_ws [] = []"
| "skip_ws (c # cs) =
     (if c = CHR '' '' \<or> c = CHR 0x09 \<or> c = CHR 0x0A \<or> c = CHR 0x0D then skip_ws cs else c # cs)"

text \<open>The value of four hexadecimal digits, and \<^verbatim>\<open>utf8.EncodeRune\<close>.\<close>

definition hex_val :: "char \<Rightarrow> nat option" where
  "hex_val c =
     (let b = of_char c :: nat in
      if 0x30 \<le> b \<and> b \<le> 0x39 then Some (b - 0x30)
      else if 0x61 \<le> b \<and> b \<le> 0x66 then Some (b - 0x61 + 10)
      else if 0x41 \<le> b \<and> b \<le> 0x46 then Some (b - 0x41 + 10)
      else None)"

definition hex4 :: "char \<Rightarrow> char \<Rightarrow> char \<Rightarrow> char \<Rightarrow> nat option" where
  "hex4 h1 h2 h3 h4 =
     (case (hex_val h1, hex_val h2, hex_val h3, hex_val h4) of
        (Some w, Some x, Some y, Some z) \<Rightarrow> Some (((w * 16 + x) * 16 + y) * 16 + z)
      | _ \<Rightarrow> None)"

definition EncodeRune :: "nat \<Rightarrow> string" where
  "EncodeRune r =
     (if r < 0x80 then [char_of r]
      else if r < 0x800 then [char_of (0xC0 + r div 64), char_of (0x80 + r mod 64)]
      else if (0xD800 \<le> r \<and> r < 0xE000) \<or> 0x10FFFF < r then [CHR 0xEF, CHR 0xBF, CHR 0xBD]
      else if r < 0x10000 then
        [char_of (0xE0 + r div 4096), char_of (0x80 + r div 64 mod 64), char_of (0x80 + r mod 64)]
      else [char_of (0xF0 + r div 262144), char_of (0x80 + r div 4096 mod 64),
            char_of (0x80 + r div 64 mod 64), char_of (0x80 + r mod 64)])"

text \<open>The single-character escapes.\<close>

definition unescape :: "char \<Rightarrow> char option" where
  "unescape e =
     (if e = CHR 0x22 \<or> e = CHR 0x5C \<or> e = CHR ''/'' then Some e
      else if e = CHR ''b'' then Some (CHR 0x08)
      else if e = CHR ''f'' then Some (CHR 0x0C)
      else if e = CHR ''n'' then Some (CHR 0x0A)
      else if e = CHR ''r'' then Some (CHR 0x0D)
      else if e = CHR ''t'' then Some (CHR 0x09)
      else None)"

definition prepend :: "string \<Rightarrow> (string \<times> string) option \<Rightarrow> (string \<times> string) option" where
  "prepend xs r = (case r of None \<Rightarrow> None | Some (t, rest) \<Rightarrow> Some (xs @ t, rest))"

text \<open>
  A string after its opening quote: the bytes it denotes and the input after its closing
  quote.
\<close>

fun string_body :: "string \<Rightarrow> (string \<times> string) option" where
  "string_body [] = None"
| "string_body (c # cs) =
     (if c = CHR 0x22 then Some ([], cs)
      else if c = CHR 0x5C then
        (case cs of
           [] \<Rightarrow> None
         | e # cs1 \<Rightarrow>
             if e = CHR ''u'' then
               (case cs1 of
                  h1 # h2 # h3 # h4 # cs2 \<Rightarrow>
                    (case hex4 h1 h2 h3 h4 of
                       None \<Rightarrow> None
                     | Some r \<Rightarrow>
                         if 0xD800 \<le> r \<and> r < 0xDC00 then
                           (case cs2 of
                              b # u # g1 # g2 # g3 # g4 # cs3 \<Rightarrow>
                                (case (if b = CHR 0x5C \<and> u = CHR ''u'' then hex4 g1 g2 g3 g4 else None) of
                                   Some r2 \<Rightarrow>
                                     if 0xDC00 \<le> r2 \<and> r2 < 0xE000 then
                                       prepend (EncodeRune (0x10000 + (r - 0xD800) * 1024 + (r2 - 0xDC00)))
                                         (string_body cs3)
                                     else prepend (EncodeRune RuneError) (string_body cs2)
                                 | None \<Rightarrow> prepend (EncodeRune RuneError) (string_body cs2))
                            | _ \<Rightarrow> prepend (EncodeRune RuneError) (string_body cs2))
                         else prepend (EncodeRune r) (string_body cs2))
                | _ \<Rightarrow> None)
             else (case unescape e of
                     None \<Rightarrow> None
                   | Some d \<Rightarrow> prepend [d] (string_body cs1)))
      else if (of_char c :: nat) < 0x20 then None
      else prepend [c] (string_body cs))"

text \<open>An integer: an optional minus sign and decimal digits, with no fraction or exponent.\<close>

definition is_digit :: "char \<Rightarrow> bool" where
  "is_digit c = (0x30 \<le> (of_char c :: nat) \<and> (of_char c :: nat) \<le> 0x39)"

fun digits_val :: "nat \<Rightarrow> string \<Rightarrow> nat \<times> string" where
  "digits_val acc [] = (acc, [])"
| "digits_val acc (c # cs) =
     (if is_digit c then digits_val (acc * 10 + (of_char c - 0x30)) cs else (acc, c # cs))"

definition integer_end :: "int \<Rightarrow> string \<Rightarrow> (int \<times> string) option" where
  "integer_end i rest =
     (case rest of
        [] \<Rightarrow> Some (i, rest)
      | c # _ \<Rightarrow> if c = CHR ''.'' \<or> c = CHR ''e'' \<or> c = CHR ''E'' then None else Some (i, rest))"

definition parse_number :: "string \<Rightarrow> (int \<times> string) option" where
  "parse_number cs =
     (case cs of
        [] \<Rightarrow> None
      | c # cs1 \<Rightarrow>
          if c = CHR ''-'' then
            (case cs1 of
               [] \<Rightarrow> None
             | d # _ \<Rightarrow>
                 if is_digit d then (case digits_val 0 cs1 of (n, rest) \<Rightarrow> integer_end (- int n) rest)
                 else None)
          else if is_digit c then (case digits_val 0 cs of (n, rest) \<Rightarrow> integer_end (int n) rest)
          else None)"

text \<open>
  Values, the elements of an array and the members of an object. The recursion follows
  the nesting of the input, which structural recursion cannot express, so each call
  spends one unit of \<open>fuel\<close>; \<open>parse_json\<close> starts with the length of the input, and a
  text that is read with less fuel is read.
\<close>

fun parse_value :: "nat \<Rightarrow> string \<Rightarrow> (json \<times> string) option"
  and parse_elements :: "nat \<Rightarrow> string \<Rightarrow> (json list \<times> string) option"
  and parse_members :: "nat \<Rightarrow> string \<Rightarrow> ((string \<times> json) list \<times> string) option" where
  "parse_value 0 cs = None"
| "parse_value (Suc fuel) cs =
     (case skip_ws cs of
        [] \<Rightarrow> None
      | c # cs1 \<Rightarrow>
          if c = CHR ''{'' then
            (case skip_ws cs1 of
               [] \<Rightarrow> None
             | d # cs2 \<Rightarrow>
                 if d = CHR ''}'' then Some (JObject [], cs2)
                 else (case parse_members fuel cs1 of
                         None \<Rightarrow> None
                       | Some (ms, rest) \<Rightarrow> Some (JObject ms, rest)))
          else if c = CHR ''['' then
            (case skip_ws cs1 of
               [] \<Rightarrow> None
             | d # cs2 \<Rightarrow>
                 if d = CHR '']'' then Some (JArray [], cs2)
                 else (case parse_elements fuel cs1 of
                         None \<Rightarrow> None
                       | Some (vs, rest) \<Rightarrow> Some (JArray vs, rest)))
          else if c = CHR 0x22 then
            (case string_body cs1 of None \<Rightarrow> None | Some (s, rest) \<Rightarrow> Some (JString s, rest))
          else if take 4 (c # cs1) = ''true'' then Some (JBool True, drop 4 (c # cs1))
          else if take 5 (c # cs1) = ''false'' then Some (JBool False, drop 5 (c # cs1))
          else if take 4 (c # cs1) = ''null'' then Some (JNull, drop 4 (c # cs1))
          else (case parse_number (c # cs1) of
                  None \<Rightarrow> None
                | Some (i, rest) \<Rightarrow> Some (JNumber i, rest)))"
| "parse_elements 0 cs = None"
| "parse_elements (Suc fuel) cs =
     (case parse_value fuel cs of
        None \<Rightarrow> None
      | Some (v, rest) \<Rightarrow>
          (case skip_ws rest of
             [] \<Rightarrow> None
           | c # rest1 \<Rightarrow>
               if c = CHR '','' then
                 (case parse_elements fuel rest1 of
                    None \<Rightarrow> None
                  | Some (vs, rest2) \<Rightarrow> Some (v # vs, rest2))
               else if c = CHR '']'' then Some ([v], rest1)
               else None))"
| "parse_members 0 cs = None"
| "parse_members (Suc fuel) cs =
     (case skip_ws cs of
        [] \<Rightarrow> None
      | q # cs1 \<Rightarrow>
          if q = CHR 0x22 then
            (case string_body cs1 of
               None \<Rightarrow> None
             | Some (k, rest) \<Rightarrow>
                 (case skip_ws rest of
                    [] \<Rightarrow> None
                  | colon # rest1 \<Rightarrow>
                      if colon = CHR '':'' then
                        (case parse_value fuel rest1 of
                           None \<Rightarrow> None
                         | Some (v, rest2) \<Rightarrow>
                             (case skip_ws rest2 of
                                [] \<Rightarrow> None
                              | c # rest3 \<Rightarrow>
                                  if c = CHR '','' then
                                    (case parse_members fuel rest3 of
                                       None \<Rightarrow> None
                                     | Some (ms, rest4) \<Rightarrow> Some ((k, v) # ms, rest4))
                                  else if c = CHR ''}'' then Some ([(k, v)], rest3)
                                  else None))
                      else None))
          else None)"

definition parse_json :: "string \<Rightarrow> json option" where
  "parse_json s =
     (case parse_value (length s) s of
        None \<Rightarrow> None
      | Some (v, rest) \<Rightarrow> if skip_ws rest = [] then Some v else None)"

text \<open>
  The four fields of a wire error body, from the object read; a name that occurs twice
  counts with its last value.
\<close>

fun string_of :: "json \<Rightarrow> string option" where
  "string_of (JString s) = Some s"
| "string_of _ = None"

fun strings_of :: "json list \<Rightarrow> string list option" where
  "strings_of [] = Some []"
| "strings_of (v # vs) =
     (case (string_of v, strings_of vs) of (Some s, Some ss) \<Rightarrow> Some (s # ss) | _ \<Rightarrow> None)"

definition read_errMsg :: "json \<Rightarrow> errMsg_struct option" where
  "read_errMsg v =
     (case v of
        JObject ms \<Rightarrow>
          (case (map_of (rev ms) ''schemas'', map_of (rev ms) ''status'',
                 map_of (rev ms) ''scimType'', map_of (rev ms) ''detail'') of
             (Some (JArray vs), Some (JNumber i), Some (JString t), Some (JString d)) \<Rightarrow>
               (case strings_of vs of
                  None \<Rightarrow> None
                | Some ss \<Rightarrow> Some \<lparr>Schemas = ss, Status = i, ScimType = t, Detail = d\<rparr>)
           | _ \<Rightarrow> None)
      | _ \<Rightarrow> None)"

definition parse_errMsg :: "string \<Rightarrow> errMsg_struct option" where
  "parse_errMsg s = (case parse_json s of None \<Rightarrow> None | Some v \<Rightarrow> read_errMsg v)"

subsection \<open>Sample values\<close>

text \<open>A fresh recording channel whose \<^verbatim>\<open>Write\<close> succeeds, and one that already carries headers.\<close>

definition recorder :: ResponseWriter where
  "recorder = \<lparr>header = Map.empty, calls = [], write_error = (\<lambda>raw. None)\<rparr>"

definition used_recorder :: ResponseWriter where
  "used_recorder =
     \<lparr>header = [''Location'' \<mapsto> [''/Users/old''], ''ETag'' \<mapsto> [''v1'']],
      calls = [SetHeader ''Location'' ''/Users/old'', SetHeader ''ETag'' ''v1''],
      write_error = (\<lambda>raw. None)\<rparr>"

text \<open>A serializer that succeeds, one that fails, and an encoder of each kind.\<close>

definition serialize_ok :: "unit Resource \<Rightarrow> unit list \<Rightarrow> string \<times> go_error option" where
  "serialize_ok resource options = (''{}'', None)"

definition serialize_fails :: "unit Resource \<Rightarrow> unit list \<Rightarrow> string \<times> go_error option" where
  "serialize_fails resource options = ([], Some (GoError Other ''cannot serialize'' None))"

definition marshal_ok :: "errMsg_struct \<Rightarrow> string \<times> go_error option" where
  "marshal_ok msg = (ScimType msg @ '': '' @ Detail msg, None)"


text \<open>A resource with a location and a version, and one with neither.\<close>

definition user1 :: "unit Resource" where
  "user1 = \<lparr>MetaLocationOrEmpty = ''/Users/1'', MetaVersionOrEmpty = ''v2'', content = ()\<rparr>"

definition bare :: "unit Resource" where
  "bare = \<lparr>MetaLocationOrEmpty = [], MetaVersionOrEmpty = [], content = ()\<rparr>"

text \<open>
  Errors: a \<^verbatim>\<open>*spec.Error\<close> on its own, the same wrapped once (as \<^verbatim>\<open>fmt.Errorf\<close> with
  \<^verbatim>\<open>%w\<close> does), wrapped twice, and a plain error.
\<close>

definition invalidPath :: go_error where
  "invalidPath = GoError (Spec_Error \<lparr>spec_Error.Status = 404, Type = ''invalidPath''\<rparr>) ''invalidPath'' None"

definition wrapped_once :: go_error where
  "wrapped_once = GoError Other ''invalidPath: no such attribute'' (Some invalidPath)"

definition wrapped_twice :: go_error where
  "wrapped_twice = GoError Other ''patch failed: invalidPath: no such attribute'' (Some wrapped_once)"

definition disk_full :: go_error where
  "disk_full = GoError Other ''disk full'' None"

section \<open>The recorded calls\<close>

lemma status_codes_append [simp]:
  "status_codes (xs @ ys) = status_codes xs @ status_codes ys"
  by (induction xs rule: status_codes.induct) simp_all

lemma bodies_append [simp]: "bodies (xs @ ys) = bodies xs @ bodies ys"
  by (induction xs rule: bodies.induct) simp_all

lemma bodies_body_written [simp]:
  "bodies (case marshal msg of (raw, None) \<Rightarrow> [WriteCall raw] | (raw, Some jsonErr) \<Rightarrow> [])
     = body_written marshal msg"
  by (simp add: body_written_def split: prod.splits option.splits)

lemma status_codes_body_written [simp]:
  "status_codes (case marshal msg of (raw, None) \<Rightarrow> [WriteCall raw] | (raw, Some jsonErr) \<Rightarrow> [])
     = []"
  by (simp split: prod.splits option.splits)

section \<open>What each writer does to the channel\<close>

text \<open>A failed serialization returns at once, with the channel as it was.\<close>

lemma WriteResourceToResponse_fails:
  assumes "snd (Serialize resource options) = Some jsonErr"
  shows "WriteResourceToResponse Serialize rw resource options = (rw, Some jsonErr)"
  using assms by (cases "Serialize resource options") (simp add: WriteResourceToResponse_def)

text \<open>
  After a successful serialization the channel has received the content type, then the
  location and the version where they are not empty, then the body; the error returned is
  the one of the channel's \<^verbatim>\<open>Write\<close>.
\<close>

lemma WriteResourceToResponse_success:
  assumes "snd (Serialize resource options) = None"
  shows "WriteResourceToResponse Serialize rw resource options =
    (rw\<lparr>header := (header rw)(''Content-Type'' \<mapsto> [''application/json+scim''])
            ++ (if MetaLocationOrEmpty resource = [] then Map.empty
                else [''Location'' \<mapsto> [MetaLocationOrEmpty resource]])
            ++ (if MetaVersionOrEmpty resource = [] then Map.empty
                else [''ETag'' \<mapsto> [MetaVersionOrEmpty resource]]),
         calls := calls rw @ [SetHeader ''Content-Type'' ''application/json+scim'']
            @ (if MetaLocationOrEmpty resource = [] then []
               else [SetHeader ''Location'' (MetaLocationOrEmpty resource)])
            @ (if MetaVersionOrEmpty resource = [] then []
               else [SetHeader ''ETag'' (MetaVersionOrEmpty resource)])
            @ [WriteCall (fst (Serialize resource options))]\<rparr>,
     write_error rw (fst (Serialize resource options)))"
  using assms
  by (cases "Serialize resource options")
     (simp add: WriteResourceToResponse_def Header_Set_def Write_def Let_def)

lemma WriteResourceToResponse_nil_iff:
  assumes "WriteResourceToResponse Serialize rw resource options = (rw', None)"
  shows "snd (Serialize resource options) = None"
proof (cases "snd (Serialize resource options)")
  case None
  then show ?thesis .
next
  case (Some jsonErr)
  then have "WriteResourceToResponse Serialize rw resource options = (rw, Some jsonErr)"
    using WriteResourceToResponse_fails [of Serialize resource options jsonErr rw] by simp
  with assms show ?thesis by simp
qed

text \<open>
  On a non-nil error \<^verbatim>\<open>WriteError\<close> always returns. The channel has then received the
  status code of the wire error body, the content type and, when the encoder succeeded,
  the encoded body.
\<close>

lemma WriteError_returns:
  "WriteError marshal errInternal rw (Some err) =
     Return (rw\<lparr>header := (header rw)(''Content-Type'' \<mapsto> [''application/json+scim'']),
               calls := calls rw @ [WriteHeaderCall (Status (errMsg errInternal err)),
                                     SetHeader ''Content-Type'' ''application/json+scim'']
                  @ (case marshal (errMsg errInternal err) of
                       (raw, None) \<Rightarrow> [WriteCall raw] | (raw, Some jsonErr) \<Rightarrow> [])\<rparr>,
             case marshal (errMsg errInternal err) of
               (raw, None) \<Rightarrow> write_error rw raw | (raw, Some jsonErr) \<Rightarrow> Some jsonErr)"
  by (cases "marshal (errMsg errInternal err)")
     (auto simp add: WriteHeader_def Header_Set_def Write_def Let_def split: option.splits)

lemma WriteError_nil: "WriteError marshal errInternal rw None = Panic"
  by simp

text \<open>The wire error body in each of the two branches.\<close>

lemma errMsg_spec_Error:
  assumes "as_spec_Error (errors_Unwrap (Some err)) = Some scimError"
  shows "errMsg errInternal err =
    \<lparr>Schemas = [''urn:ietf:params:scim:api:messages:2.0:Error''],
     Status = spec_Error.Status scimError, ScimType = Type scimError, Detail = Error err\<rparr>"
  using assms by (simp add: errMsg_def)

lemma errMsg_fallback:
  assumes "as_spec_Error (errors_Unwrap (Some err)) = None"
  shows "errMsg errInternal err =
    \<lparr>Schemas = [''urn:ietf:params:scim:api:messages:2.0:Error''],
     Status = spec_Error.Status errInternal, ScimType = Type errInternal, Detail = Error err\<rparr>"
  using assms by (simp add: errMsg_def)

section \<open>The resource writer\<close>

text \<open>
  C2. For every resource and every option list, if the serializer fails with error \<open>E\<close>,
  \<^verbatim>\<open>WriteResourceToResponse\<close> returns \<open>E\<close> itself and leaves the channel exactly as it
  was: no header is set and no body byte is written.
\<close>

theorem WriteResourceToResponse_serializer_failure:
  "snd (Serialize resource options) = Some E \<Longrightarrow>
   WriteResourceToResponse Serialize rw resource options = (rw, Some E)"
  by (cases "Serialize resource options") (simp add: WriteResourceToResponse_def)

theorem WriteResourceToResponse_serializer_failure_witness:
  "snd (serialize_fails user1 []) = Some (GoError Other ''cannot serialize'' None) \<and>
   WriteResourceToResponse serialize_fails used_recorder user1 [] =
     (used_recorder, Some (GoError Other ''cannot serialize'' None))"
  using WriteResourceToResponse_serializer_failure
    [of serialize_fails user1 "[]" "GoError Other ''cannot serialize'' None" used_recorder]
  by (simp add: serialize_fails_def)

text \<open>
  C5, as stated: after a successful write the \<^verbatim>\<open>Location\<close> header is the resource's
  location when that is not empty and is absent when it is empty, and likewise the
  \<^verbatim>\<open>ETag\<close> header for the version. The second half fails on a channel that already
  carries such a header: the writer sets headers and never removes one.
\<close>

theorem WriteResourceToResponse_keeps_earlier_headers:
  "snd (WriteResourceToResponse serialize_ok used_recorder bare []) = None \<and>
   MetaLocationOrEmpty bare = [] \<and>
   header (fst (WriteResourceToResponse serialize_ok used_recorder bare [])) ''Location''
     = Some [''/Users/old''] \<and>
   MetaVersionOrEmpty bare = [] \<and>
   header (fst (WriteResourceToResponse serialize_ok used_recorder bare [])) ''ETag''
     = Some [''v1'']"
  by (simp add: WriteResourceToResponse_def serialize_ok_def used_recorder_def bare_def
      Header_Set_def Write_def Let_def)

text \<open>
  C5, amended: after a successful write the \<^verbatim>\<open>Location\<close> header is exactly the resource's
  location when that is not empty, and is what it was before the call when it is empty
  (so it is absent on a channel that did not carry one); likewise the \<^verbatim>\<open>ETag\<close> header
  for the version.
\<close>

theorem WriteResourceToResponse_Location_ETag:
  "WriteResourceToResponse Serialize rw resource options = (rw', None) \<Longrightarrow>
   header rw' ''Location'' =
     (if MetaLocationOrEmpty resource = [] then header rw ''Location''
      else Some [MetaLocationOrEmpty resource]) \<and>
   header rw' ''ETag'' =
     (if MetaVersionOrEmpty resource = [] then header rw ''ETag''
      else Some [MetaVersionOrEmpty resource])"
proof -
  assume ok: "WriteResourceToResponse Serialize rw resource options = (rw', None)"
  have ser: "snd (Serialize resource options) = None"
    using WriteResourceToResponse_nil_iff [of Serialize rw resource options rw'] ok by simp
  have "rw' = fst (WriteResourceToResponse Serialize rw resource options)"
    using ok by simp
  then show ?thesis
    unfolding WriteResourceToResponse_success [of Serialize resource options rw, OF ser]
    by (simp add: map_add_def)
qed

theorem WriteResourceToResponse_Location_ETag_witness:
  "WriteResourceToResponse serialize_ok recorder user1 [] =
     (\<lparr>header = [''Content-Type'' \<mapsto> [''application/json+scim''],
                  ''Location'' \<mapsto> [''/Users/1''], ''ETag'' \<mapsto> [''v2'']],
       calls = [SetHeader ''Content-Type'' ''application/json+scim'',
                SetHeader ''Location'' ''/Users/1'', SetHeader ''ETag'' ''v2'',
                WriteCall ''{}''],
       write_error = (\<lambda>raw. None)\<rparr>, None) \<and>
   header \<lparr>header = [''Content-Type'' \<mapsto> [''application/json+scim''],
                  ''Location'' \<mapsto> [''/Users/1''], ''ETag'' \<mapsto> [''v2'']],
       calls = [SetHeader ''Content-Type'' ''application/json+scim'',
                SetHeader ''Location'' ''/Users/1'', SetHeader ''ETag'' ''v2'',
                WriteCall ''{}''],
       write_error = (\<lambda>raw. None)\<rparr> ''Location'' = Some [''/Users/1''] \<and>
   header \<lparr>header = [''Content-Type'' \<mapsto> [''application/json+scim''],
                  ''Location'' \<mapsto> [''/Users/1''], ''ETag'' \<mapsto> [''v2'']],
       calls = [SetHeader ''Content-Type'' ''application/json+scim'',
                SetHeader ''Location'' ''/Users/1'', SetHeader ''ETag'' ''v2'',
                WriteCall ''{}''],
       write_error = (\<lambda>raw. None)\<rparr> ''ETag'' = Some [''v2'']"
proof -
  have run: "WriteResourceToResponse serialize_ok recorder user1 [] =
     (\<lparr>header = [''Content-Type'' \<mapsto> [''application/json+scim''],
                  ''Location'' \<mapsto> [''/Users/1''], ''ETag'' \<mapsto> [''v2'']],
       calls = [SetHeader ''Content-Type'' ''application/json+scim'',
                SetHeader ''Location'' ''/Users/1'', SetHeader ''ETag'' ''v2'',
                WriteCall ''{}''],
       write_error = (\<lambda>raw. None)\<rparr>, None)"
    by (simp add: WriteResourceToResponse_def serialize_ok_def recorder_def user1_def
        Header_Set_def Write_def Let_def)
  from WriteResourceToResponse_Location_ETag [of serialize_ok recorder user1 "[]", OF run] run
  show ?thesis
    by (simp add: user1_def)
qed

text \<open>
  C9. On the success path of \<^verbatim>\<open>WriteResourceToResponse\<close> the calls made on the channel
  are the header mutations (\<^verbatim>\<open>Content-Type\<close>, then \<^verbatim>\<open>Location\<close> and \<^verbatim>\<open>ETag\<close> where
  they apply) followed by the one body write, which comes last: every header mutation
  precedes the body write, for every resource and option list.
\<close>

theorem WriteResourceToResponse_headers_before_body:
  "snd (Serialize resource options) = None \<Longrightarrow>
   (\<exists>hs. calls (fst (WriteResourceToResponse Serialize rw resource options)) =
            calls rw @ map (\<lambda>(key, v). SetHeader key v) hs
                     @ [WriteCall (fst (Serialize resource options))] \<and>
         hs = [(''Content-Type'', ''application/json+scim'')]
              @ (if MetaLocationOrEmpty resource = [] then []
                 else [(''Location'', MetaLocationOrEmpty resource)])
              @ (if MetaVersionOrEmpty resource = [] then []
                 else [(''ETag'', MetaVersionOrEmpty resource)]))"
proof -
  assume ser: "snd (Serialize resource options) = None"
  show ?thesis
    unfolding WriteResourceToResponse_success [of Serialize resource options rw, OF ser]
    by simp
qed

theorem WriteResourceToResponse_headers_before_body_witness:
  "snd (serialize_ok user1 []) = None \<and>
   calls (fst (WriteResourceToResponse serialize_ok used_recorder user1 [])) =
     [SetHeader ''Location'' ''/Users/old'', SetHeader ''ETag'' ''v1'',
      SetHeader ''Content-Type'' ''application/json+scim'',
      SetHeader ''Location'' ''/Users/1'', SetHeader ''ETag'' ''v2'', WriteCall ''{}'']"
proof -
  have ser: "snd (serialize_ok user1 []) = None"
    by (simp add: serialize_ok_def)
  from WriteResourceToResponse_headers_before_body [of serialize_ok user1 "[]" used_recorder, OF ser]
    ser
  show ?thesis
    by (simp add: serialize_ok_def user1_def used_recorder_def)
qed

section \<open>The error writer\<close>

text \<open>
  C1. For every non-nil error passed to \<^verbatim>\<open>WriteError\<close>: if its direct cause is a
  \<^verbatim>\<open>*spec.Error\<close>, the status code written to the channel is the cause's status and the
  body written is the encoding of the wire error body that carries the cause's status and
  type; otherwise (no cause, or a cause of another type) the internal-error
  classification is used, so the status code written is 500 and the wire error body
  carries 500 and the internal-error type.
\<close>

theorem WriteError_classification:
  "(errors_Unwrap (Some err) = Some cause \<and> dyn cause = Spec_Error scimError \<longrightarrow>
      (\<exists>rw' r. WriteError marshal (ErrInternal internalType) rw (Some err) = Return (rw', r) \<and>
         status_codes (calls rw') = status_codes (calls rw) @ [spec_Error.Status scimError] \<and>
         bodies (calls rw') = bodies (calls rw) @ body_written marshal
           \<lparr>Schemas = [''urn:ietf:params:scim:api:messages:2.0:Error''],
            Status = spec_Error.Status scimError, ScimType = Type scimError,
            Detail = Error err\<rparr>)) \<and>
   (errors_Unwrap (Some err) = None \<or>
    (\<exists>other. errors_Unwrap (Some err) = Some other \<and> dyn other = Other) \<longrightarrow>
      (\<exists>rw' r. WriteError marshal (ErrInternal internalType) rw (Some err) = Return (rw', r) \<and>
         status_codes (calls rw') = status_codes (calls rw) @ [500] \<and>
         bodies (calls rw') = bodies (calls rw) @ body_written marshal
           \<lparr>Schemas = [''urn:ietf:params:scim:api:messages:2.0:Error''],
            Status = 500, ScimType = internalType, Detail = Error err\<rparr>))"
proof (intro conjI impI)
  assume "errors_Unwrap (Some err) = Some cause \<and> dyn cause = Spec_Error scimError"
  then have "as_spec_Error (errors_Unwrap (Some err)) = Some scimError"
    by simp
  then have "errMsg (ErrInternal internalType) err =
    \<lparr>Schemas = [''urn:ietf:params:scim:api:messages:2.0:Error''],
     Status = spec_Error.Status scimError, ScimType = Type scimError, Detail = Error err\<rparr>"
    by (rule errMsg_spec_Error)
  then show "\<exists>rw' r. WriteError marshal (ErrInternal internalType) rw (Some err) = Return (rw', r) \<and>
         status_codes (calls rw') = status_codes (calls rw) @ [spec_Error.Status scimError] \<and>
         bodies (calls rw') = bodies (calls rw) @ body_written marshal
           \<lparr>Schemas = [''urn:ietf:params:scim:api:messages:2.0:Error''],
            Status = spec_Error.Status scimError, ScimType = Type scimError,
            Detail = Error err\<rparr>"
    unfolding WriteError_returns by simp
next
  assume "errors_Unwrap (Some err) = None \<or>
    (\<exists>other. errors_Unwrap (Some err) = Some other \<and> dyn other = Other)"
  then have "as_spec_Error (errors_Unwrap (Some err)) = None"
    by auto
  then have "errMsg (ErrInternal internalType) err =
    \<lparr>Schemas = [''urn:ietf:params:scim:api:messages:2.0:Error''],
     Status = 500, ScimType = internalType, Detail = Error err\<rparr>"
    using errMsg_fallback [of err "ErrInternal internalType"] by (simp add: ErrInternal_def)
  then show "\<exists>rw' r. WriteError marshal (ErrInternal internalType) rw (Some err) = Return (rw', r) \<and>
         status_codes (calls rw') = status_codes (calls rw) @ [500] \<and>
         bodies (calls rw') = bodies (calls rw) @ body_written marshal
           \<lparr>Schemas = [''urn:ietf:params:scim:api:messages:2.0:Error''],
            Status = 500, ScimType = internalType, Detail = Error err\<rparr>"
    unfolding WriteError_returns by simp
qed

theorem WriteError_classification_witness:
  "errors_Unwrap (Some wrapped_once) = Some invalidPath \<and>
   dyn invalidPath = Spec_Error \<lparr>spec_Error.Status = 404, Type = ''invalidPath''\<rparr> \<and>
   WriteError marshal_ok (ErrInternal ''internal'') recorder (Some wrapped_once) =
     Return (\<lparr>header = [''Content-Type'' \<mapsto> [''application/json+scim'']],
              calls = [WriteHeaderCall 404, SetHeader ''Content-Type'' ''application/json+scim'',
                       WriteCall ''invalidPath: invalidPath: no such attribute''],
              write_error = (\<lambda>raw. None)\<rparr>, None) \<and>
   errors_Unwrap (Some disk_full) = None \<and>
   WriteError marshal_ok (ErrInternal ''internal'') recorder (Some disk_full) =
     Return (\<lparr>header = [''Content-Type'' \<mapsto> [''application/json+scim'']],
              calls = [WriteHeaderCall 500, SetHeader ''Content-Type'' ''application/json+scim'',
                       WriteCall ''internal: disk full''],
              write_error = (\<lambda>raw. None)\<rparr>, None)"
  using
    WriteError_classification [of wrapped_once invalidPath
      "\<lparr>spec_Error.Status = 404, Type = ''invalidPath''\<rparr>" marshal_ok "''internal''" recorder]
    WriteError_classification [of disk_full invalidPath
      "\<lparr>spec_Error.Status = 404, Type = ''invalidPath''\<rparr>" marshal_ok "''internal''" recorder]
  by (simp add: wrapped_once_def invalidPath_def disk_full_def marshal_ok_def recorder_def
      ErrInternal_def errMsg_def WriteHeader_def Header_Set_def Write_def Let_def)

text \<open>
  C3. Every invocation of \<^verbatim>\<open>WriteError\<close> on a non-nil error builds one wire error body,
  and the status code it writes to the channel, the only one, is the \<open>Status\<close> field of
  that body; the only body it writes is the encoding of that same wire error body. This
  holds whichever branch filled the body in.
\<close>

theorem WriteError_status_agrees:
  "\<exists>rw' r. WriteError marshal errInternal rw (Some err) = Return (rw', r) \<and>
     status_codes (calls rw') = status_codes (calls rw) @ [Status (errMsg errInternal err)] \<and>
     bodies (calls rw') = bodies (calls rw) @ body_written marshal (errMsg errInternal err)"
  unfolding WriteError_returns by simp

text \<open>
  C4. For every non-nil error passed to \<^verbatim>\<open>WriteError\<close>, the \<open>Detail\<close> field of the wire
  error body that is encoded and written is the rendered message of the error itself, not
  that of its cause, whichever branch classified it.
\<close>

theorem WriteError_detail:
  "\<exists>rw' r st ty. WriteError marshal errInternal rw (Some err) = Return (rw', r) \<and>
     bodies (calls rw') = bodies (calls rw) @ body_written marshal
       \<lparr>Schemas = [''urn:ietf:params:scim:api:messages:2.0:Error''],
        Status = st, ScimType = ty, Detail = Error err\<rparr>"
proof (cases "as_spec_Error (errors_Unwrap (Some err))")
  case None
  show ?thesis
    unfolding WriteError_returns errMsg_fallback [OF None] by (simp, intro exI, rule refl)
next
  case (Some scimError)
  show ?thesis
    unfolding WriteError_returns errMsg_spec_Error [OF Some] by (simp, intro exI, rule refl)
qed

text \<open>
  The header map after either call: both writers put \<^verbatim>\<open>application/json+scim\<close> under
  \<^verbatim>\<open>Content-Type\<close> in the map that \<^verbatim>\<open>Header()\<close> returns.
\<close>

lemma Content_Type_in_header_map:
  "(WriteResourceToResponse Serialize rw resource options = (rw', None) \<longrightarrow>
      header rw' ''Content-Type'' = Some [''application/json+scim'']) \<and>
   (\<exists>rw'' r. WriteError marshal errInternal rw (Some err) = Return (rw'', r) \<and>
      header rw'' ''Content-Type'' = Some [''application/json+scim''])"
proof (intro conjI impI)
  assume ok: "WriteResourceToResponse Serialize rw resource options = (rw', None)"
  have ser: "snd (Serialize resource options) = None"
    using WriteResourceToResponse_nil_iff [of Serialize rw resource options rw'] ok by simp
  have "rw' = fst (WriteResourceToResponse Serialize rw resource options)"
    using ok by simp
  then show "header rw' ''Content-Type'' = Some [''application/json+scim'']"
    unfolding WriteResourceToResponse_success [of Serialize resource options rw, OF ser]
    by (simp add: map_add_def)
next
  show "\<exists>rw'' r. WriteError marshal errInternal rw (Some err) = Return (rw'', r) \<and>
      header rw'' ''Content-Type'' = Some [''application/json+scim'']"
    unfolding WriteError_returns by simp
qed

text \<open>
  The headers that go out. On a channel on which nothing has been sent yet,
  \<^verbatim>\<open>WriteResourceToResponse\<close> sets its headers and then writes, so what is sent is the
  map with all of them. \<^verbatim>\<open>WriteError\<close> writes the status first and sets
  \<^verbatim>\<open>Content-Type\<close> after it: what is sent is the map the caller left, whatever its
  \<^verbatim>\<open>Content-Type\<close> was.
\<close>

lemma WriteResourceToResponse_headers_sent:
  assumes "snd (Serialize resource options) = None"
  shows "headers_sent (header rw)
      (drop (length (calls rw)) (calls (fst (WriteResourceToResponse Serialize rw resource options))))
    = Some (header (fst (WriteResourceToResponse Serialize rw resource options)))"
  unfolding WriteResourceToResponse_success [of Serialize resource options rw, OF assms]
  by simp

lemma WriteError_headers_sent:
  "\<exists>rw' r. WriteError marshal errInternal rw (Some err) = Return (rw', r) \<and>
     headers_sent (header rw) (drop (length (calls rw)) (calls rw')) = Some (header rw)"
  unfolding WriteError_returns by simp

text \<open>
  C6. After every successful \<^verbatim>\<open>WriteResourceToResponse\<close> and after every \<^verbatim>\<open>WriteError\<close>
  the \<^verbatim>\<open>Content-Type\<close> header of the response is \<^verbatim>\<open>application/json+scim\<close>. The code
  does not do this for errors. On a fresh channel, \<^verbatim>\<open>WriteError\<close> with the error
  \<^verbatim>\<open>disk full\<close> calls \<^verbatim>\<open>WriteHeader(500)\<close>, then sets \<^verbatim>\<open>Content-Type\<close>, then writes the
  body: the headers sent with the status are the empty map, without a \<^verbatim>\<open>Content-Type\<close>.
  \<^verbatim>\<open>WriteResourceToResponse\<close> on the same channel sets the header before it writes, and
  the header is sent.
\<close>

theorem WriteError_sends_no_Content_Type:
  "WriteError marshal_ok (ErrInternal ''internal'') recorder (Some disk_full) =
     Return (\<lparr>header = [''Content-Type'' \<mapsto> [''application/json+scim'']],
              calls = [WriteHeaderCall 500, SetHeader ''Content-Type'' ''application/json+scim'',
                       WriteCall ''internal: disk full''],
              write_error = (\<lambda>raw. None)\<rparr>, None) \<and>
   header recorder = Map.empty \<and>
   headers_sent (header recorder)
     [WriteHeaderCall 500, SetHeader ''Content-Type'' ''application/json+scim'',
      WriteCall ''internal: disk full''] = Some Map.empty \<and>
   WriteResourceToResponse serialize_ok recorder bare [] =
     (\<lparr>header = [''Content-Type'' \<mapsto> [''application/json+scim'']],
       calls = [SetHeader ''Content-Type'' ''application/json+scim'', WriteCall ''{}''],
       write_error = (\<lambda>raw. None)\<rparr>, None) \<and>
   headers_sent (header recorder)
     [SetHeader ''Content-Type'' ''application/json+scim'', WriteCall ''{}'']
     = Some [''Content-Type'' \<mapsto> [''application/json+scim'']]"
  by (simp add: disk_full_def marshal_ok_def recorder_def ErrInternal_def errMsg_def
      WriteHeader_def Header_Set_def Write_def Let_def
      WriteResourceToResponse_def serialize_ok_def bare_def)



text \<open>
  C10. \<^verbatim>\<open>WriteError\<close> tests the type of the direct cause only. For every non-nil error
  whose direct cause is not a \<^verbatim>\<open>*spec.Error\<close>, the status code written and the status
  and type of the wire error body are those of the internal-error fallback. This includes
  an error that is itself a \<^verbatim>\<open>*spec.Error\<close> and wraps nothing, and an error in which a
  \<^verbatim>\<open>*spec.Error\<close> sits two or more unwrappings deep.
\<close>

theorem WriteError_direct_cause_only:
  "as_spec_Error (errors_Unwrap (Some err)) = None \<Longrightarrow>
   (\<exists>rw' r. WriteError marshal errInternal rw (Some err) = Return (rw', r) \<and>
      status_codes (calls rw') = status_codes (calls rw) @ [spec_Error.Status errInternal] \<and>
      bodies (calls rw') = bodies (calls rw) @ body_written marshal
        \<lparr>Schemas = [''urn:ietf:params:scim:api:messages:2.0:Error''],
         Status = spec_Error.Status errInternal, ScimType = Type errInternal,
         Detail = Error err\<rparr>)"
proof -
  assume fallback: "as_spec_Error (errors_Unwrap (Some err)) = None"
  show ?thesis
    unfolding WriteError_returns errMsg_fallback [OF fallback] by simp
qed

theorem WriteError_direct_cause_only_witness:
  "dyn invalidPath = Spec_Error \<lparr>spec_Error.Status = 404, Type = ''invalidPath''\<rparr> \<and>
   as_spec_Error (errors_Unwrap (Some invalidPath)) = None \<and>
   WriteError marshal_ok (ErrInternal ''internal'') recorder (Some invalidPath) =
     Return (\<lparr>header = [''Content-Type'' \<mapsto> [''application/json+scim'']],
              calls = [WriteHeaderCall 500, SetHeader ''Content-Type'' ''application/json+scim'',
                       WriteCall ''internal: invalidPath''],
              write_error = (\<lambda>raw. None)\<rparr>, None) \<and>
   errors_Unwrap (errors_Unwrap (Some wrapped_twice)) = Some invalidPath \<and>
   as_spec_Error (errors_Unwrap (Some wrapped_twice)) = None \<and>
   WriteError marshal_ok (ErrInternal ''internal'') recorder (Some wrapped_twice) =
     Return (\<lparr>header = [''Content-Type'' \<mapsto> [''application/json+scim'']],
              calls = [WriteHeaderCall 500, SetHeader ''Content-Type'' ''application/json+scim'',
                       WriteCall ''internal: patch failed: invalidPath: no such attribute''],
              write_error = (\<lambda>raw. None)\<rparr>, None)"
proof -
  have direct: "as_spec_Error (errors_Unwrap (Some invalidPath)) = None"
    by (simp add: invalidPath_def)
  have nested: "as_spec_Error (errors_Unwrap (Some wrapped_twice)) = None"
    by (simp add: wrapped_twice_def wrapped_once_def)
  from WriteError_direct_cause_only [OF direct, of marshal_ok "ErrInternal ''internal''" recorder]
    WriteError_direct_cause_only [OF nested, of marshal_ok "ErrInternal ''internal''" recorder]
    direct nested
  show ?thesis
    by (simp add: wrapped_twice_def wrapped_once_def invalidPath_def marshal_ok_def recorder_def
        ErrInternal_def errMsg_def WriteHeader_def Header_Set_def Write_def Let_def)
qed

section \<open>Round trip of the wire error body\<close>

subsection \<open>Escapes\<close>

lemma hex_val_hex: "k < 16 \<Longrightarrow> hex_val (hex ! k) = Some k"
proof -
  assume "k < 16"
  then have "k \<in> {0,1,2,3,4,5,6,7,8,9,10,11,12,13,14,15}" by simp arith
  then show ?thesis
    by (auto simp add: hex_def hex_val_def)
qed

lemma prepend_prepend [simp]: "prepend xs (prepend ys r) = prepend (xs @ ys) r"
  by (simp add: prepend_def split: option.splits)

lemma prepend_Some [simp]: "prepend xs (Some (t, rest)) = Some (xs @ t, rest)"
  by (simp add: prepend_def)

text \<open>Bytes from \<open>0x80\<close> on stand for themselves in a JSON string.\<close>

lemma string_body_high:
  "\<forall>y \<in> set ys. (0x80::nat) \<le> of_char y \<Longrightarrow> string_body (ys @ X) = prepend ys (string_body X)"
proof (induction ys)
  case Nil
  then show ?case by (simp add: prepend_def split: option.splits)
next
  case (Cons y ys)
  then have "(0x80::nat) \<le> of_char y" by simp
  then have "y \<noteq> CHR 0x22" "y \<noteq> CHR 0x5C" "\<not> (of_char y :: nat) < 0x20"
    by auto
  with Cons show ?case by simp
qed

lemma hex4_byte:
  "b < 256 \<Longrightarrow> hex4 (CHR ''0'') (CHR ''0'') (hex ! (b div 16)) (hex ! (b mod 16)) = Some b"
proof -
  assume "b < 256"
  then have "b div 16 < 16" by arith
  then have hi: "hex_val (hex ! (b div 16)) = Some (b div 16)" by (rule hex_val_hex)
  have lo: "hex_val (hex ! (b mod 16)) = Some (b mod 16)" by (rule hex_val_hex) simp
  have zero: "hex_val (CHR ''0'') = Some 0" by (simp add: hex_val_def)
  show ?thesis by (simp add: hex4_def hi lo zero)
qed

lemma string_body_u00:
  assumes "b < 0x80"
  shows "string_body (CHR 0x5C # CHR ''u'' # CHR ''0'' # CHR ''0'' # hex ! (b div 16) # hex ! (b mod 16) # X)
    = prepend [char_of b] (string_body X)"
proof -
  from assms have "b < 256" by simp
  from hex4_byte [OF this] assms show ?thesis
    by (simp add: EncodeRune_def)
qed

text \<open>Whatever the encoder writes for an ASCII byte denotes that byte.\<close>

lemma string_body_escape_ascii:
  assumes "(of_char c :: nat) < 0x80"
  shows "string_body (escape_ascii c @ X) = prepend [c] (string_body X)"
proof (cases "htmlSafe (of_char c)")
  case True
  then have "c \<noteq> CHR 0x22" "c \<noteq> CHR 0x5C" "\<not> (of_char c :: nat) < 0x20"
    by (auto simp add: htmlSafe_def)
  with True show ?thesis by (simp add: escape_ascii_def)
next
  case False
  show ?thesis
  proof (cases "c = CHR 0x5C \<or> c = CHR 0x22 \<or> c = CHR 0x08 \<or> c = CHR 0x0C \<or> c = CHR 0x0A \<or> c = CHR 0x0D \<or> c = CHR 0x09")
    case True
    with False show ?thesis
      by (auto simp add: escape_ascii_def unescape_def)
  next
    case other: False
    with False have "escape_ascii c =
      [CHR 0x5C, CHR ''u'', CHR ''0'', CHR ''0'', hex ! (of_char c div 16), hex ! (of_char c mod 16)]"
      by (simp add: escape_ascii_def Let_def)
    then have "string_body (escape_ascii c @ X) = prepend [char_of (of_char c :: nat)] (string_body X)"
      using string_body_u00 [OF assms, of X] by (simp only: append_Cons append_Nil)
    then show ?thesis by (simp only: char_of_char)
  qed
qed

subsection \<open>Decoding UTF-8\<close>

lemma first_Some:
  assumes "first s0 = Some (sz, lo, hi)"
  shows "(sz = 2 \<or> sz = 3 \<or> sz = 4) \<and> 0x80 \<le> lo \<and> hi \<le> 0xBF \<and> 0xC2 \<le> s0"
  using assms by (auto simp add: first_def split: if_splits)

lemma DecodeRuneInString_width:
  "DecodeRuneInString (c # s) = (r, w) \<Longrightarrow> 1 \<le> w"
  by (auto simp add: Let_def split: if_splits option.splits)

text \<open>The bytes of a valid multi-byte encoding are all from \<open>0x80\<close> on.\<close>

lemma DecodeRuneInString_bytes:
  assumes "\<not> (of_char c :: nat) < 0x80"
    and "DecodeRuneInString (c # s) = (r, w)"
    and "\<not> (r = RuneError \<and> w = 1)"
  shows "\<forall>y \<in> set (take w (c # s)). (0x80::nat) \<le> of_char y"
proof -
  from assms obtain sz lo hi where f: "first (of_char c) = Some (sz, lo, hi)"
    by (auto simp add: Let_def split: if_splits option.splits)
  note b = first_Some [OF f]
  from assms f have len: "sz \<le> Suc (length s)"
    by (auto simp add: Let_def split: if_splits)
  from b have "sz = 2 \<or> sz = 3 \<or> sz = 4" by simp
  then show ?thesis
  proof (elim disjE)
    assume sz: "sz = 2"
    with len obtain a s' where s: "s = a # s'" by (cases s) auto
    from assms f sz s b show ?thesis
      by (auto simp add: Let_def split: if_splits)
  next
    assume sz: "sz = 3"
    with len obtain a a' s' where s: "s = a # a' # s'"
      by (cases s; cases "tl s") auto
    from assms f sz s b show ?thesis
      by (auto simp add: Let_def split: if_splits)
  next
    assume sz: "sz = 4"
    with len obtain a a' a'' s' where s: "s = a # a' # a'' # s'"
      by (cases s; cases "tl s"; cases "tl (tl s)") auto
    from assms f sz s b show ?thesis
      by (auto simp add: Let_def split: if_splits)
  qed
qed

lemma char_eq_if_of_char:
  "(of_char c :: nat) = n \<Longrightarrow> c = char_of n"
  by (metis char_of_char)

text \<open>
  When the rune decoded is U+2028 or U+2029, the bytes decoded are its encoding, which is
  what the parser puts in the place of the escape.
\<close>

lemma three_bytes_unique:
  fixes p q t k :: nat
  assumes "p * 4096 + q * 64 + t = 8192 + k" "q < 64" "t < 64" "k < 64"
  shows "p = 2 \<and> q = 0 \<and> t = k"
proof -
  have "p \<le> 2" using assms by linarith
  moreover have "2 \<le> p" using assms by linarith
  ultimately have p: "p = 2" by simp
  with assms have "q * 64 + t = k" by simp
  with assms have q: "q = 0" by linarith
  with \<open>q * 64 + t = k\<close> have "t = k" by simp
  with p q show ?thesis by simp
qed

lemma mod_in_block:
  fixes x :: nat
  assumes "n * q \<le> x" "x < n * Suc q"
  shows "x = n * q + x mod n"
  using div_nat_eqI [OF assms] mult_div_mod_eq [of n x] by simp

lemma DecodeRuneInString_separator:
  assumes "\<not> (of_char c :: nat) < 0x80"
    and "DecodeRuneInString (c # s) = (r, w)"
    and "r = 0x2028 \<or> r = 0x2029"
  shows "take w (c # s) = EncodeRune r"
proof -
  from assms have valid: "\<not> (r = RuneError \<and> w = 1)"
    by (auto simp add: RuneError_def)
  from assms valid obtain sz lo hi where f: "first (of_char c) = Some (sz, lo, hi)"
    by (auto simp add: Let_def split: if_splits option.splits)
  note b = first_Some [OF f]
  from assms valid f have len: "sz \<le> Suc (length s)"
    by (auto simp add: Let_def split: if_splits)
  from assms(3) obtain k where k: "r = 8192 + k" "k = 40 \<or> k = 41"
    by auto
  from b have "sz = 2 \<or> sz = 3 \<or> sz = 4" by simp
  then show "take w (c # s) = EncodeRune r"
  proof (elim disjE)
    assume sz: "sz = 2"
    with len obtain a s' where s: "s = a # s'" by (cases s) auto
    from assms valid f sz s b have r: "r = of_char c mod 32 * 64 + of_char a mod 64"
      by (auto simp add: Let_def split: if_splits)
    have "(of_char c :: nat) mod 32 < 32" "(of_char a :: nat) mod 64 < 64" by simp_all
    with r have "r < 8192" by linarith
    with k show ?thesis by simp
  next
    assume sz: "sz = 3"
    with len obtain a a' s' where s: "s = a # a' # s'"
      by (cases s; cases "tl s") auto
    from assms valid f sz s b
    have r: "r = of_char c mod 16 * 4096 + of_char a mod 64 * 64 + of_char a' mod 64"
      and w: "w = 3"
      and ra: "(0x80::nat) \<le> of_char a" "(of_char a :: nat) \<le> 0xBF"
      and ra': "(0x80::nat) \<le> of_char a'" "(of_char a' :: nat) \<le> 0xBF"
      by (auto simp add: Let_def split: if_splits)
    from f sz have rc: "(0xE0::nat) \<le> of_char c" "(of_char c :: nat) \<le> 0xEF"
      by (auto simp add: first_def split: if_splits)
    have "(of_char a :: nat) mod 64 < 64" "(of_char a' :: nat) mod 64 < 64" by simp_all
    with three_bytes_unique [of "of_char c mod 16" "of_char a mod 64" "of_char a' mod 64" k] r k
    have m: "(of_char c :: nat) mod 16 = 2" "(of_char a :: nat) mod 64 = 0"
      "(of_char a' :: nat) mod 64 = k"
      by auto
    from m(1) rc mod_in_block [of 16 14 "of_char c"] have "(of_char c :: nat) = 0xE2" by simp
    moreover from m(2) ra mod_in_block [of 64 2 "of_char a"] have "(of_char a :: nat) = 0x80"
      by simp
    moreover from m(3) ra' mod_in_block [of 64 2 "of_char a'"] have "(of_char a' :: nat) = 0x80 + k"
      by simp
    ultimately have "c = char_of (0xE2 :: nat)" "a = char_of (0x80 :: nat)"
      "a' = char_of (0x80 + k)"
      by (simp_all only: char_eq_if_of_char)
    with w s k show ?thesis
      by (auto simp add: EncodeRune_def)
  next
    assume sz: "sz = 4"
    with len obtain a a' a'' s' where s: "s = a # a' # a'' # s'"
      by (cases s; cases "tl s"; cases "tl (tl s)") auto
    from assms valid f sz s b
    have r: "r = of_char c mod 8 * 262144 + of_char a mod 64 * 4096 + of_char a' mod 64 * 64
        + of_char a'' mod 64"
      and ra: "lo \<le> of_char a" "(of_char a :: nat) \<le> 0xBF"
      by (auto simp add: Let_def split: if_splits)
    from f sz have "((of_char c :: nat) = 0xF0 \<and> lo = 0x90) \<or> (0xF1 \<le> (of_char c :: nat) \<and> (of_char c :: nat) \<le> 0xF4)"
      by (auto simp add: first_def split: if_splits)
    then have "1 \<le> (of_char c :: nat) mod 8 \<or> 16 \<le> (of_char a :: nat) mod 64"
    proof
      assume "(of_char c :: nat) = 0xF0 \<and> lo = 0x90"
      with ra have "(0x90::nat) \<le> of_char a" "(of_char a :: nat) \<le> 0xBF" by simp_all
      with mod_in_block [of 64 2 "of_char a"] have "16 \<le> (of_char a :: nat) mod 64" by simp
      then show ?thesis ..
    next
      assume "0xF1 \<le> (of_char c :: nat) \<and> (of_char c :: nat) \<le> 0xF4"
      with mod_in_block [of 8 30 "of_char c"] have "1 \<le> (of_char c :: nat) mod 8" by simp
      then show ?thesis ..
    qed
    with r have "65536 \<le> r" by linarith
    with k show ?thesis by simp
  qed
qed

subsection \<open>What is escaped reads back\<close>

lemma hex4_separator:
  "r = 0x2028 \<or> r = 0x2029 \<Longrightarrow>
   hex4 (CHR ''2'') (CHR ''0'') (CHR ''2'') (hex ! (r mod 16)) = Some r"
  by (auto simp add: hex4_def hex_val_def hex_def)

lemma string_body_separator:
  assumes "r = 0x2028 \<or> r = 0x2029"
  shows "string_body (CHR 0x5C # CHR ''u'' # CHR ''2'' # CHR ''0'' # CHR ''2'' # hex ! (r mod 16) # X)
    = prepend (EncodeRune r) (string_body X)"
proof -
  from assms have "\<not> 0xD800 \<le> r" by auto
  with hex4_separator [OF assms] show ?thesis by simp
qed

lemma take_drop_width:
  "1 \<le> w \<Longrightarrow> take w (c # t) @ drop (w - 1) t = c # t"
  by (cases w) simp_all

text \<open>
  A string that is valid UTF-8 reads back from its encoding, byte for byte. The proof
  follows the loop of the encoder, one rune at a time.
\<close>

lemma string_body_appendString:
  "ValidString s \<Longrightarrow> string_body (appendString s @ CHR 0x22 # rest) = Some (s, rest)"
proof (induction s rule: length_induct)
  case (1 s)
  show ?case
  proof (cases s)
    case Nil
    then show ?thesis by simp
  next
    case (Cons c t)
    show ?thesis
    proof (cases "(of_char c :: nat) < 0x80")
      case True
      with "1.prems" Cons have "ValidString t" by simp
      with "1.IH" Cons have "string_body (appendString t @ CHR 0x22 # rest) = Some (t, rest)"
        by simp
      with True Cons string_body_escape_ascii [OF True, of "appendString t @ CHR 0x22 # rest"]
      show ?thesis by simp
    next
      case False
      obtain r w where d: "DecodeRuneInString (c # t) = (r, w)"
        by (cases "DecodeRuneInString (c # t)")
      from "1.prems" Cons d have valid: "\<not> (r = RuneError \<and> w = 1)"
        and tail: "ValidString (drop (w - 1) t)"
        by simp_all
      from d have w: "1 \<le> w" by (rule DecodeRuneInString_width)
      from "1.IH" Cons tail
      have IH: "string_body (appendString (drop (w - 1) t) @ CHR 0x22 # rest)
          = Some (drop (w - 1) t, rest)"
        by simp
      show ?thesis
      proof (cases "r = 0x2028 \<or> r = 0x2029")
        case True
        with False d valid have "appendString (c # t) =
          [CHR 0x5C, CHR ''u'', CHR ''2'', CHR ''0'', CHR ''2'', hex ! (r mod 16)]
          @ appendString (drop (w - 1) t)"
          by auto
        then have "string_body (appendString (c # t) @ CHR 0x22 # rest)
          = prepend (EncodeRune r) (string_body (appendString (drop (w - 1) t) @ CHR 0x22 # rest))"
          using string_body_separator [OF True] by (simp only: append_Cons append_Nil append_assoc)
        also have "\<dots> = Some (take w (c # t) @ drop (w - 1) t, rest)"
          using IH DecodeRuneInString_separator [OF False d True] by simp
        finally show ?thesis using Cons take_drop_width [OF w] by simp
      next
        case other: False
        with False d valid have "appendString (c # t) =
          take w (c # t) @ appendString (drop (w - 1) t)"
          by auto
        then have "string_body (appendString (c # t) @ CHR 0x22 # rest)
          = prepend (take w (c # t)) (string_body (appendString (drop (w - 1) t) @ CHR 0x22 # rest))"
          using string_body_high [OF DecodeRuneInString_bytes [OF False d valid]]
          by (simp only: append_assoc)
        also have "\<dots> = Some (take w (c # t) @ drop (w - 1) t, rest)"
          using IH by simp
        finally show ?thesis using Cons take_drop_width [OF w] by simp
      qed
    qed
  qed
qed

subsection \<open>Integers\<close>

lemma digit_char:
  assumes "d < 10"
  shows "is_digit (char_of (0x30 + d))" and "(of_char (char_of (0x30 + d)) :: nat) - 0x30 = d"
    and "char_of (0x30 + d) \<noteq> CHR ''-''"
proof -
  from assms have v: "(of_char (char_of (0x30 + d)) :: nat) = 0x30 + d" by simp
  from v assms show "is_digit (char_of (0x30 + d))" by (simp add: is_digit_def)
  from v show "(of_char (char_of (0x30 + d)) :: nat) - 0x30 = d" by simp
  show "char_of (0x30 + d) \<noteq> CHR ''-''"
  proof
    assume "char_of (0x30 + d) = CHR ''-''"
    then have "(of_char (char_of (0x30 + d)) :: nat) = of_char (CHR ''-'')" by (rule arg_cong)
    with v show False by simp
  qed
qed

text \<open>Reading the digits that \<open>digits\<close> writes continues from the number they denote.\<close>

lemma digits_val_digits:
  "digits_val acc (digits n @ rest) = digits_val (acc * 10 ^ length (digits n) + n) rest"
proof (induction n arbitrary: acc rest rule: digits.induct)
  case (1 n)
  show ?case
  proof (cases "n < 10")
    case True
    with digit_char [OF True] show ?thesis
      by (subst (1 2) digits.simps) (simp del: digits.simps)
  next
    case False
    have d: "n mod 10 < 10" by simp
    have "digits_val acc (digits n @ rest)
      = digits_val acc (digits (n div 10) @ char_of (0x30 + n mod 10) # rest)"
      using False by (subst digits.simps) (simp del: digits.simps)
    also have "\<dots> = digits_val (acc * 10 ^ length (digits (n div 10)) + n div 10)
        (char_of (0x30 + n mod 10) # rest)"
      using "1.IH" [OF False] by (simp del: digits.simps)
    also have "\<dots> = digits_val ((acc * 10 ^ length (digits (n div 10)) + n div 10) * 10 + n mod 10) rest"
      using digit_char [OF d] by (simp del: digits.simps)
    also have "(acc * 10 ^ length (digits (n div 10)) + n div 10) * 10 + n mod 10
      = acc * 10 ^ length (digits n) + n"
      using False by (subst (2) digits.simps) (simp add: algebra_simps del: digits.simps)
    finally show ?thesis .
  qed
qed

lemma digits_first:
  "\<exists>d ds. digits n = d # ds \<and> is_digit d \<and> d \<noteq> CHR ''-''"
proof (induction n rule: digits.induct)
  case (1 n)
  show ?case
  proof (cases "n < 10")
    case True
    with digit_char [OF True] show ?thesis
      by (subst digits.simps) (simp del: digits.simps)
  next
    case False
    from "1.IH" [OF False] obtain d ds where "digits (n div 10) = d # ds" "is_digit d" "d \<noteq> CHR ''-''"
      by blast
    with False show ?thesis
      by (subst digits.simps) (simp del: digits.simps)
  qed
qed

lemma parse_number_FormatInt:
  assumes "\<not> is_digit c" "c \<noteq> CHR ''.''" "c \<noteq> CHR ''e''" "c \<noteq> CHR ''E''"
  shows "parse_number (FormatInt i @ c # rest) = Some (i, c # rest)"
proof -
  show ?thesis
  proof (cases "i < 0")
    case True
    obtain d ds where d: "digits (nat (- i)) = d # ds" "is_digit d"
      using digits_first [of "nat (- i)"] by blast
    have "digits_val 0 (digits (nat (- i)) @ c # rest) = (nat (- i), c # rest)"
      using assms by (simp add: digits_val_digits del: digits.simps)
    with True d assms show ?thesis
      by (simp add: parse_number_def FormatInt_def integer_end_def del: digits.simps)
  next
    case False
    obtain d ds where d: "digits (nat i) = d # ds" "is_digit d" "d \<noteq> CHR ''-''"
      using digits_first [of "nat i"] by blast
    have "digits_val 0 (digits (nat i) @ c # rest) = (nat i, c # rest)"
      using assms by (simp add: digits_val_digits del: digits.simps)
    with False d assms show ?thesis
      by (simp add: parse_number_def FormatInt_def integer_end_def del: digits.simps)
  qed
qed

lemma FormatInt_first:
  "\<exists>d ds. FormatInt i = d # ds \<and> (d = CHR ''-'' \<or> is_digit d)"
proof (cases "i < 0")
  case True
  then show ?thesis by (simp add: FormatInt_def del: digits.simps)
next
  case False
  with digits_first [of "nat i"] show ?thesis
    by (auto simp add: FormatInt_def simp del: digits.simps)
qed

lemma parse_value_FormatInt:
  assumes "\<not> is_digit c" "c \<noteq> CHR ''.''" "c \<noteq> CHR ''e''" "c \<noteq> CHR ''E''"
  shows "parse_value (Suc fuel) (FormatInt i @ c # rest) = Some (JNumber i, c # rest)"
proof -
  obtain d ds where d: "FormatInt i = d # ds" "d = CHR ''-'' \<or> is_digit d"
    using FormatInt_first [of i] by blast
  from d(2) have first: "d \<noteq> CHR '' ''" "d \<noteq> CHR 0x09" "d \<noteq> CHR 0x0A" "d \<noteq> CHR 0x0D"
    "d \<noteq> CHR ''{''" "d \<noteq> CHR ''[''" "d \<noteq> CHR 0x22" "d \<noteq> CHR ''t''" "d \<noteq> CHR ''f''"
    "d \<noteq> CHR ''n''"
    by (auto simp add: is_digit_def)
  have "parse_value (Suc fuel) (d # ds @ c # rest)
    = (case parse_number (d # ds @ c # rest) of None \<Rightarrow> None | Some (i, rest) \<Rightarrow> Some (JNumber i, rest))"
    using first by simp
  with parse_number_FormatInt [OF assms, of i rest] d show ?thesis
    by simp
qed

subsection \<open>The encoded body\<close>

lemma parse_value_string:
  "parse_value (Suc fuel) (CHR 0x22 # X) =
     (case string_body X of None \<Rightarrow> None | Some (s, rest) \<Rightarrow> Some (JString s, rest))"
  by simp

lemma parse_value_array:
  "parse_value (Suc fuel) (CHR ''['' # CHR 0x22 # X) =
     (case parse_elements fuel (CHR 0x22 # X) of
        None \<Rightarrow> None
      | Some (vs, rest) \<Rightarrow> Some (JArray vs, rest))"
  by simp

lemma parse_value_object:
  "parse_value (Suc fuel) (CHR ''{'' # CHR 0x22 # X) =
     (case parse_members fuel (CHR 0x22 # X) of
        None \<Rightarrow> None
      | Some (ms, rest) \<Rightarrow> Some (JObject ms, rest))"
  by simp

lemma appendString_keys:
  "appendString ''schemas'' = ''schemas''"
  "appendString ''status'' = ''status''"
  "appendString ''scimType'' = ''scimType''"
  "appendString ''detail'' = ''detail''"
  "appendString ''urn:ietf:params:scim:api:messages:2.0:Error''
     = ''urn:ietf:params:scim:api:messages:2.0:Error''"
  by (simp_all add: escape_ascii_def htmlSafe_def)

text \<open>The text of an encoded wire error body, and what the parser makes of it.\<close>

lemma json_Marshal_text:
  "Schemas msg = [''urn:ietf:params:scim:api:messages:2.0:Error''] \<Longrightarrow>
   fst (json_Marshal msg) =
     CHR ''{'' # CHR 0x22 # ''schemas'' @ CHR 0x22 # '':['' @ CHR 0x22
       # ''urn:ietf:params:scim:api:messages:2.0:Error'' @ CHR 0x22 # '']'' @ '',''
     @ CHR 0x22 # ''status'' @ CHR 0x22 # '':'' @ FormatInt (Status msg) @ '',''
     @ CHR 0x22 # ''scimType'' @ CHR 0x22 # '':'' @ CHR 0x22 # appendString (ScimType msg) @ CHR 0x22 # '',''
     @ CHR 0x22 # ''detail'' @ CHR 0x22 # '':'' @ CHR 0x22 # appendString (Detail msg) @ CHR 0x22 # ''}''"
  by (simp add: json_Marshal_def json_string_def appendString_keys del: appendString.simps)

lemma parse_value_json_Marshal:
  assumes "Schemas msg = [''urn:ietf:params:scim:api:messages:2.0:Error'']"
    and "ValidString (ScimType msg)" and "ValidString (Detail msg)"
  shows "parse_value (Suc (Suc (Suc (Suc (Suc (Suc fuel)))))) (fst (json_Marshal msg)) =
    Some (JObject [(''schemas'', JArray [JString ''urn:ietf:params:scim:api:messages:2.0:Error'']),
                   (''status'', JNumber (Status msg)),
                   (''scimType'', JString (ScimType msg)),
                   (''detail'', JString (Detail msg))], [])"
  unfolding json_Marshal_text [OF assms(1)]
  by (simp add: parse_value_FormatInt parse_value_string parse_value_array parse_value_object
      string_body_appendString [OF assms(2)] string_body_appendString [OF assms(3)] is_digit_def
      del: appendString.simps parse_value.simps)

text \<open>The length of the text is fuel enough.\<close>

lemma json_Marshal_length:
  "\<exists>fuel. length (fst (json_Marshal msg)) = Suc (Suc (Suc (Suc (Suc (Suc fuel)))))"
  by (simp add: json_Marshal_def json_string_def del: appendString.simps)

lemma json_Marshal_nil: "snd (json_Marshal msg) = None"
  by (simp add: json_Marshal_def)

lemma parse_errMsg_json_Marshal:
  assumes "Schemas msg = [''urn:ietf:params:scim:api:messages:2.0:Error'']"
    and "ValidString (ScimType msg)" and "ValidString (Detail msg)"
  shows "parse_errMsg (fst (json_Marshal msg)) = Some msg"
proof -
  obtain fuel where "length (fst (json_Marshal msg)) = Suc (Suc (Suc (Suc (Suc (Suc fuel)))))"
    using json_Marshal_length by blast
  with parse_value_json_Marshal [OF assms, of fuel]
  have "parse_json (fst (json_Marshal msg)) =
    Some (JObject [(''schemas'', JArray [JString ''urn:ietf:params:scim:api:messages:2.0:Error'']),
                   (''status'', JNumber (Status msg)),
                   (''scimType'', JString (ScimType msg)),
                   (''detail'', JString (Detail msg))])"
    by (simp add: parse_json_def)
  with assms(1) show ?thesis
    by (simp add: parse_errMsg_def read_errMsg_def)
qed

subsection \<open>A byte that is not UTF-8\<close>

text \<open>Two bytes that start no encoding, and the body whose detail is the first of them.\<close>

lemma appendString_invalid:
  "appendString [CHR 0xFF] = [CHR 0x5C, CHR ''u'', CHR ''f'', CHR ''f'', CHR ''f'', CHR ''d'']"
  "appendString [CHR 0xFE] = [CHR 0x5C, CHR ''u'', CHR ''f'', CHR ''f'', CHR ''f'', CHR ''d'']"
  by (simp_all add: first_def RuneError_def)

lemma FormatInt_500: "FormatInt 500 = ''500''"
  by (simp add: FormatInt_def char_of_eq_iff)

lemma appendString_internal: "appendString ''internal'' = ''internal''"
  by (simp add: escape_ascii_def htmlSafe_def)

lemma marshal_FF:
  "fst (json_Marshal \<lparr>Schemas = [''urn:ietf:params:scim:api:messages:2.0:Error''], Status = 500,
      ScimType = ''internal'', Detail = [CHR 0xFF]\<rparr>) =
     CHR ''{'' # CHR 0x22 # ''schemas'' @ CHR 0x22 # '':['' @ CHR 0x22
       # ''urn:ietf:params:scim:api:messages:2.0:Error'' @ CHR 0x22 # '']'' @ '',''
     @ CHR 0x22 # ''status'' @ CHR 0x22 # '':'' @ ''500'' @ '',''
     @ CHR 0x22 # ''scimType'' @ CHR 0x22 # '':'' @ CHR 0x22 # ''internal'' @ CHR 0x22 # '',''
     @ CHR 0x22 # ''detail'' @ CHR 0x22 # '':'' @ CHR 0x22 # CHR 0x5C # ''ufffd'' @ CHR 0x22 # ''}''"
  by (simp add: json_Marshal_text appendString_invalid FormatInt_500 appendString_internal
      del: appendString.simps)

lemma hex4_fffd: "hex4 (CHR ''f'') (CHR ''f'') (CHR ''f'') (CHR ''d'') = Some 0xFFFD"
  by (simp add: hex4_def hex_val_def)

lemma parse_FF:
   "parse_errMsg (fst (json_Marshal \<lparr>Schemas = [''urn:ietf:params:scim:api:messages:2.0:Error''],
      Status = 500, ScimType = ''internal'', Detail = [CHR 0xFF]\<rparr>))
   = Some \<lparr>Schemas = [''urn:ietf:params:scim:api:messages:2.0:Error''], Status = 500,
      ScimType = ''internal'', Detail = [CHR 0xEF, CHR 0xBF, CHR 0xBD]\<rparr>"
  unfolding marshal_FF
  by (simp add: parse_errMsg_def parse_json_def read_errMsg_def hex4_fffd EncodeRune_def
      parse_number_def is_digit_def integer_end_def char_of_eq_iff)

subsection \<open>The round trip\<close>

text \<open>
  C8, as stated: for every status, type and detail, encoding the wire error body and
  parsing the JSON back gives the four fields it was built from. This fails for a detail
  that is not valid UTF-8: the bytes \<open>0xFF\<close> and \<open>0xFE\<close> are both written as the escape
  of U+FFFD, so the two bodies have the same JSON text, and what is read back is the
  three-byte encoding of U+FFFD.
\<close>

theorem wire_error_body_invalid_byte_lost:
  "parse_errMsg (fst (json_Marshal
      \<lparr>Schemas = [''urn:ietf:params:scim:api:messages:2.0:Error''], Status = 500,
       ScimType = ''internal'', Detail = [CHR 0xFF]\<rparr>))
     \<noteq> Some \<lparr>Schemas = [''urn:ietf:params:scim:api:messages:2.0:Error''], Status = 500,
         ScimType = ''internal'', Detail = [CHR 0xFF]\<rparr> \<and>
   parse_errMsg (fst (json_Marshal
      \<lparr>Schemas = [''urn:ietf:params:scim:api:messages:2.0:Error''], Status = 500,
       ScimType = ''internal'', Detail = [CHR 0xFF]\<rparr>))
     = Some \<lparr>Schemas = [''urn:ietf:params:scim:api:messages:2.0:Error''], Status = 500,
         ScimType = ''internal'', Detail = [CHR 0xEF, CHR 0xBF, CHR 0xBD]\<rparr> \<and>
   fst (json_Marshal
      \<lparr>Schemas = [''urn:ietf:params:scim:api:messages:2.0:Error''], Status = 500,
       ScimType = ''internal'', Detail = [CHR 0xFF]\<rparr>)
     = fst (json_Marshal
      \<lparr>Schemas = [''urn:ietf:params:scim:api:messages:2.0:Error''], Status = 500,
       ScimType = ''internal'', Detail = [CHR 0xFE]\<rparr>)"
proof -
  have same: "fst (json_Marshal
      \<lparr>Schemas = [''urn:ietf:params:scim:api:messages:2.0:Error''], Status = 500,
       ScimType = ''internal'', Detail = [CHR 0xFF]\<rparr>)
     = fst (json_Marshal
      \<lparr>Schemas = [''urn:ietf:params:scim:api:messages:2.0:Error''], Status = 500,
       ScimType = ''internal'', Detail = [CHR 0xFE]\<rparr>)"
    by (simp add: json_Marshal_text appendString_invalid del: appendString.simps)
  from parse_FF same show ?thesis by simp
qed

text \<open>
  C8, amended: for every status and for every type and detail that are valid UTF-8,
  encoding the wire error body with \<^verbatim>\<open>json.Marshal\<close>, which does not fail, and parsing
  the JSON back gives an object whose four fields are the ones the body was built from,
  its schemas being the one-element list of the SCIM error schema.
\<close>

theorem wire_error_body_round_trip:
  "ValidString scimType \<Longrightarrow> ValidString detail \<Longrightarrow>
   parse_errMsg (fst (json_Marshal
      \<lparr>Schemas = [''urn:ietf:params:scim:api:messages:2.0:Error''], Status = status,
       ScimType = scimType, Detail = detail\<rparr>))
     = Some \<lparr>Schemas = [''urn:ietf:params:scim:api:messages:2.0:Error''], Status = status,
         ScimType = scimType, Detail = detail\<rparr> \<and>
   snd (json_Marshal
      \<lparr>Schemas = [''urn:ietf:params:scim:api:messages:2.0:Error''], Status = status,
       ScimType = scimType, Detail = detail\<rparr>) = None"
proof -
  assume "ValidString scimType" and "ValidString detail"
  then show ?thesis
    using parse_errMsg_json_Marshal
      [of "\<lparr>Schemas = [''urn:ietf:params:scim:api:messages:2.0:Error''], Status = status,
         ScimType = scimType, Detail = detail\<rparr>"]
    by (simp add: json_Marshal_nil)
qed

theorem wire_error_body_round_trip_witness:
  "ValidString ''invalidPath'' \<and>
   ValidString [CHR ''<'', CHR 0xE2, CHR 0x80, CHR 0xA8, CHR 0xC3, CHR 0xA9, CHR 0x0A, CHR 0x22] \<and>
   parse_errMsg (fst (json_Marshal
      \<lparr>Schemas = [''urn:ietf:params:scim:api:messages:2.0:Error''], Status = 404,
       ScimType = ''invalidPath'',
       Detail = [CHR ''<'', CHR 0xE2, CHR 0x80, CHR 0xA8, CHR 0xC3, CHR 0xA9, CHR 0x0A, CHR 0x22]\<rparr>))
     = Some \<lparr>Schemas = [''urn:ietf:params:scim:api:messages:2.0:Error''], Status = 404,
         ScimType = ''invalidPath'',
         Detail = [CHR ''<'', CHR 0xE2, CHR 0x80, CHR 0xA8, CHR 0xC3, CHR 0xA9, CHR 0x0A, CHR 0x22]\<rparr>"
proof -
  have t: "ValidString ''invalidPath''"
    by (simp add: RuneError_def)
  have d: "ValidString [CHR ''<'', CHR 0xE2, CHR 0x80, CHR 0xA8, CHR 0xC3, CHR 0xA9, CHR 0x0A, CHR 0x22]"
    by (simp add: first_def RuneError_def)
  from wire_error_body_round_trip [OF t d, of 404] t d show ?thesis
    by simp
qed

end
